theory Spec2Isabelle
  imports Complex_Main "HOL-Library.Sublist"
begin

section \<open>Python strings\<close>

text \<open>
  A Python \<open>str\<close> is modelled as a \<open>string\<close>; a \<open>char\<close> stands for a code point
  below 256. The functions below are the \<open>str\<close> methods the program calls.
\<close>

definition startswith :: "string \<Rightarrow> string \<Rightarrow> bool" where
  "startswith s p = (take (length p) s = p)"

definition endswith :: "string \<Rightarrow> string \<Rightarrow> bool" where
  "endswith s p = (length p \<le> length s \<and> drop (length s - length p) s = p)"

text \<open>The code points below 256 for which \<open>str.isspace\<close> holds.\<close>

definition is_space :: "char \<Rightarrow> bool" where
  "is_space c = (c \<in> set [CHR 0x09, CHR 0x0A, CHR 0x0B, CHR 0x0C, CHR 0x0D,
     CHR 0x1C, CHR 0x1D, CHR 0x1E, CHR 0x1F, CHR 0x20, CHR 0x85, CHR 0xA0])"

definition lstrip_chars :: "(char \<Rightarrow> bool) \<Rightarrow> string \<Rightarrow> string" where
  "lstrip_chars P s = dropWhile P s"

definition rstrip_chars :: "(char \<Rightarrow> bool) \<Rightarrow> string \<Rightarrow> string" where
  "rstrip_chars P s = rev (dropWhile P (rev s))"

text \<open>\<open>s.strip(chars)\<close>, the character set given as a predicate.\<close>

definition strip_chars :: "(char \<Rightarrow> bool) \<Rightarrow> string \<Rightarrow> string" where
  "strip_chars P s = rstrip_chars P (lstrip_chars P s)"

text \<open>\<open>s.strip()\<close>.\<close>

definition strip :: "string \<Rightarrow> string" where
  "strip s = strip_chars is_space s"

text \<open>\<open>s.split(c)\<close> for a one-character separator: never the empty list.\<close>

fun split_on :: "char \<Rightarrow> string \<Rightarrow> string list" where
  "split_on c [] = [[]]"
| "split_on c (x # xs) =
     (if x = c then [] # split_on c xs
      else (case split_on c xs of [] \<Rightarrow> [[x]] | y # ys \<Rightarrow> (x # y) # ys))"

text \<open>\<open>s.join(xs)\<close>.\<close>

fun str_join :: "string \<Rightarrow> string list \<Rightarrow> string" where
  "str_join s [] = []"
| "str_join s [x] = x"
| "str_join s (x # y # ys) = x @ s @ str_join s (y # ys)"

text \<open>
  \<open>s.splitlines()\<close>: the line boundaries below 256 are LF, CR, CR LF, VT, FF, FS, GS, RS
  and NEL; a final boundary opens no empty last line.
\<close>

definition is_linebreak :: "char \<Rightarrow> bool" where
  "is_linebreak c = (c \<in> set [CHR 0x0A, CHR 0x0D, CHR 0x0B, CHR 0x0C,
     CHR 0x1C, CHR 0x1D, CHR 0x1E, CHR 0x85])"

fun splitlines_from :: "string \<Rightarrow> string \<Rightarrow> string list" where
  "splitlines_from cur [] = (if cur = [] then [] else [cur])"
| "splitlines_from cur [c] =
     (if is_linebreak c then [cur] else [cur @ [c]])"
| "splitlines_from cur (c # d # cs) =
     (if c = CHR 0x0D \<and> d = CHR 0x0A then cur # splitlines_from [] cs
      else if is_linebreak c then cur # splitlines_from [] (d # cs)
      else splitlines_from (cur @ [c]) (d # cs))"

definition splitlines :: "string \<Rightarrow> string list" where
  "splitlines s = splitlines_from [] s"

text \<open>\<open>sub in s\<close> on strings.\<close>

fun str_contains :: "string \<Rightarrow> string \<Rightarrow> bool" where
  "str_contains sub [] = (sub = [])"
| "str_contains sub (x # xs) = (startswith (x # xs) sub \<or> str_contains sub xs)"

section \<open>\<open>os.path\<close> on POSIX\<close>

datatype py_exception =
    ValueError
  | OverflowError
  | FileNotFoundError
  | FileExistsError
  | NotADirectoryError
  | IsADirectoryError

text \<open>\<open>os.path.join(a, b)\<close>: an absolute \<open>b\<close> discards \<open>a\<close>.\<close>

definition path_join :: "string \<Rightarrow> string \<Rightarrow> string" where
  "path_join a b =
     (if startswith b ''/'' then b
      else if a = [] \<or> endswith a ''/'' then a @ b
      else a @ ''/'' @ b)"

text \<open>
  \<open>os.path.split(p)\<close>: the tail is what follows the last slash; the head is what
  precedes it, its trailing slashes removed unless it consists of slashes only.
\<close>

definition path_split :: "string \<Rightarrow> string \<times> string" where
  "path_split p =
     (let tail = rev (takeWhile (\<lambda>c. c \<noteq> CHR ''/'') (rev p));
          head = take (length p - length tail) p
      in (if head \<noteq> [] \<and> \<not> list_all (\<lambda>c. c = CHR ''/'') head
          then rstrip_chars (\<lambda>c. c = CHR ''/'') head else head, tail))"

definition dirname :: "string \<Rightarrow> string" where
  "dirname p = fst (path_split p)"

definition basename :: "string \<Rightarrow> string" where
  "basename p = snd (path_split p)"

text \<open>The components \<open>os.path.commonpath\<close> compares: empty ones and \<open>.\<close> are dropped.\<close>

definition path_components :: "string \<Rightarrow> string list" where
  "path_components p = filter (\<lambda>c. c \<noteq> [] \<and> c \<noteq> ''.'') (split_on (CHR ''/'') p)"

text \<open>
  \<open>os.path.commonpath(paths)\<close>: \<open>ValueError\<close> on the empty list and on a mix of absolute
  and relative paths; otherwise the longest common prefix of the component lists (the
  library takes it between the least and the greatest list, which is the prefix common to
  all), joined, after a slash when the paths are absolute.
\<close>

definition commonpath :: "string list \<Rightarrow> py_exception + string" where
  "commonpath paths =
     (case paths of
        [] \<Rightarrow> Inl ValueError
      | p # ps \<Rightarrow>
          if \<not> list_all (\<lambda>q. startswith q ''/'' = startswith p ''/'') ps then Inl ValueError
          else Inr ((if startswith p ''/'' then ''/'' else []) @
                 str_join ''/'' (fold longest_common_prefix (map path_components ps)
                                   (path_components p))))"

section \<open>The operating system\<close>

text \<open>
  The calls that reach the file system are taken from an interface over a state of the
  world \<open>'w\<close>: \<open>os.path.realpath\<close> (which may raise: a path with a NUL character is a
  \<open>ValueError\<close>), \<open>os.makedirs(d, exist_ok=True)\<close> and the \<open>with open(p, 'w') ... f.write(c)\<close>
  block. The last two return the world they leave and the exception they raised, if any.
\<close>

record 'w os =
  realpath :: "'w \<Rightarrow> string \<Rightarrow> py_exception + string"
  makedirs :: "'w \<Rightarrow> string \<Rightarrow> 'w \<times> py_exception option"
  write_file :: "'w \<Rightarrow> string \<Rightarrow> string \<Rightarrow> 'w \<times> py_exception option"

section \<open>\<open>upgrade_java\<close>: parsing the response and applying the changes\<close>

text \<open>
  An entry of \<open>errors_applying_changes\<close>: \<open>CouldNotWrite b e\<close> is the message
  \<open>Could not write changes to b: e\<close>, \<open>Incomplete b\<close> the message
  \<open>LLM response for b was incomplete.\<close>
\<close>

datatype apply_error = CouldNotWrite string py_exception | Incomplete string

record 'w apply_state =
  world :: 'w
  updated_files_count :: nat
  errors_applying_changes :: "apply_error list"

definition fence :: string where
  "fence = ''```''"

text \<open>The test \<open>line.startswith("--- File: ") and line.endswith(" ---")\<close>.\<close>

definition is_file_header :: "string \<Rightarrow> bool" where
  "is_file_header line = (startswith line ''--- File: '' \<and> endswith line '' ---'')"

text \<open>\<open>line[len("--- File: "): -len(" ---")].strip()\<close>.\<close>

definition header_path :: "string \<Rightarrow> string" where
  "header_path line =
     strip (drop (length ''--- File: '') (take (length line - length '' ---'') line))"

text \<open>
  The path traversal check:
  \<open>commonpath([realpath(repo_path), realpath(abs_file_path)]) != realpath(repo_path)\<close>.
  It stands outside every \<open>try\<close>, so an exception of \<open>realpath\<close> or \<open>commonpath\<close> leaves
  the function.
\<close>

definition path_is_unsafe :: "'w os \<Rightarrow> 'w \<Rightarrow> string \<Rightarrow> string \<Rightarrow> py_exception + bool" where
  "path_is_unsafe os w repo_path abs_file_path =
     (case realpath os w repo_path of Inl e \<Rightarrow> Inl e | Inr r1 \<Rightarrow>
      case realpath os w abs_file_path of Inl e \<Rightarrow> Inl e | Inr r2 \<Rightarrow>
      case commonpath [r1, r2] of Inl e \<Rightarrow> Inl e | Inr c \<Rightarrow>
      case realpath os w repo_path of Inl e \<Rightarrow> Inl e | Inr r3 \<Rightarrow> Inr (c \<noteq> r3))"

text \<open>The inner \<open>while\<close>: collect lines up to the next fence or the end.\<close>

function collect_content :: "string list \<Rightarrow> nat \<Rightarrow> string list \<Rightarrow> nat \<times> string list" where
  "collect_content lines i file_content_lines =
     (if i < length lines \<and> strip (lines ! i) \<noteq> fence
      then collect_content lines (i + 1) (file_content_lines @ [lines ! i])
      else (i, file_content_lines))"
  by pat_completeness auto
termination
  by (relation "measure (\<lambda>(lines, i, acc). length lines - i)") auto

declare collect_content.simps [simp del]

text \<open>
  The \<open>try\<close> block that saves one file: any exception of \<open>makedirs\<close> or of the write is
  caught and recorded; the counter is incremented only when both succeed.
\<close>

definition write_changes ::
  "'w os \<Rightarrow> string \<Rightarrow> string list \<Rightarrow> 'w apply_state \<Rightarrow> 'w apply_state" where
  "write_changes os abs_file_path file_content_lines st =
     (let full_content = str_join [CHR 0x0A] file_content_lines in
      case makedirs os (world st) (dirname abs_file_path) of
        (w1, Some e) \<Rightarrow>
          st\<lparr>world := w1,
             errors_applying_changes :=
               errors_applying_changes st @ [CouldNotWrite (basename abs_file_path) e]\<rparr>
      | (w1, None) \<Rightarrow>
          (case write_file os w1 abs_file_path full_content of
             (w2, Some e) \<Rightarrow>
               st\<lparr>world := w2,
                  errors_applying_changes :=
                    errors_applying_changes st @ [CouldNotWrite (basename abs_file_path) e]\<rparr>
           | (w2, None) \<Rightarrow>
               st\<lparr>world := w2, updated_files_count := updated_files_count st + 1\<rparr>))"

text \<open>
  One pass through the body of the outer \<open>while i < len(lines)\<close>, entered with
  \<open>i < len(lines)\<close>: the next value of \<open>i\<close> and the state, or the exception raised.
\<close>

definition parse_step ::
  "'w os \<Rightarrow> string \<Rightarrow> string list \<Rightarrow> nat \<Rightarrow> 'w apply_state
     \<Rightarrow> py_exception + (nat \<times> 'w apply_state)" where
  "parse_step os repo_path lines i st =
     (let line = lines ! i in
      if is_file_header line then
        let file_path_relative = header_path line;
            abs_file_path = path_join repo_path file_path_relative
        in case path_is_unsafe os (world st) repo_path abs_file_path of
             Inl e \<Rightarrow> Inl e
           | Inr True \<Rightarrow> Inr (i + 1, st)
           | Inr False \<Rightarrow>
               let i1 = i + 1 in
               if i1 < length lines \<and> strip (lines ! i1) = fence then
                 let (i2, file_content_lines) = collect_content lines (i1 + 1) [] in
                 if i2 < length lines \<and> strip (lines ! i2) = fence then
                   Inr (i2 + 1, write_changes os abs_file_path file_content_lines st)
                 else
                   Inr (i2, st\<lparr>errors_applying_changes :=
                              errors_applying_changes st @
                                [Incomplete (basename file_path_relative)]\<rparr>)
               else Inr (i1, st)
      else Inr (i + 1, st))"

lemma collect_content_index: "i \<le> fst (collect_content lines i acc)"
proof (induction lines i acc rule: collect_content.induct)
  case (1 lines i acc)
  show ?case
  proof (cases "i < length lines \<and> strip (lines ! i) \<noteq> fence")
    case True
    with 1 have "i + 1 \<le> fst (collect_content lines (i + 1) (acc @ [lines ! i]))"
      by simp
    with True show ?thesis
      by (subst collect_content.simps) simp
  next
    case False
    then show ?thesis
      by (subst collect_content.simps) auto
  qed
qed

lemma parse_step_advances:
  assumes "parse_step os repo_path lines i st = Inr (j, st')"
  shows "i < j"
proof -
  have "i + 2 \<le> fst (collect_content lines (i + 2) [])"
    by (rule collect_content_index)
  with assms show ?thesis
    by (auto simp: parse_step_def Let_def add.commute
             split: if_splits sum.splits bool.splits prod.splits)
qed

text \<open>The outer \<open>while\<close> loop.\<close>

function upgrade_loop ::
  "'w os \<Rightarrow> string \<Rightarrow> string list \<Rightarrow> nat \<Rightarrow> 'w apply_state
     \<Rightarrow> py_exception + 'w apply_state" where
  "upgrade_loop os repo_path lines i st =
     (if i < length lines then
        (case parse_step os repo_path lines i st of
           Inl e \<Rightarrow> Inl e
         | Inr (j, st') \<Rightarrow> upgrade_loop os repo_path lines j st')
      else Inr st)"
  by pat_completeness auto
termination
proof (relation "measure (\<lambda>(os, repo_path, lines, i, st). length lines - i)")
  show "wf (measure (\<lambda>(os, repo_path, lines, i, st). length lines - i))"
    by simp
next
  fix os :: "'w os" and repo_path lines i and st :: "'w apply_state" and x2 j st'
  assume "i < length lines"
    and "parse_step os repo_path lines i st = Inr x2"
    and "(j, st') = x2"
  then have "i < j"
    using parse_step_advances [of os repo_path lines i st j st'] by simp
  with \<open>i < length lines\<close>
  show "((os, repo_path, lines, j, st'), (os, repo_path, lines, i, st))
          \<in> measure (\<lambda>(os, repo_path, lines, i, st). length lines - i)"
    by simp
qed

declare upgrade_loop.simps [simp del]

text \<open>
  What \<open>upgrade_java\<close> returns after the loop: the details of the errors when there are
  any, otherwise the number of files written with the target version.
\<close>

datatype response =
    FinishedWithErrors "apply_error list"
  | SuccessfullyUpgraded nat string

definition upgrade_response :: "string \<Rightarrow> 'w apply_state \<Rightarrow> response" where
  "upgrade_response target_version st =
     (if errors_applying_changes st \<noteq> [] then FinishedWithErrors (errors_applying_changes st)
      else SuccessfullyUpgraded (updated_files_count st) target_version)"

text \<open>
  Step 5 of \<open>upgrade_java\<close> on the text of the model's response (\<open>llm_output\<close> is that
  text stripped): the state after the loop, or the exception that leaves the endpoint.
\<close>

definition parse_and_apply ::
  "'w os \<Rightarrow> string \<Rightarrow> string \<Rightarrow> 'w \<Rightarrow> py_exception + 'w apply_state" where
  "parse_and_apply os repo_path response_text w =
     (let llm_output = strip response_text;
          lines = splitlines llm_output
      in upgrade_loop os repo_path lines 0
           \<lparr>world = w, updated_files_count = 0, errors_applying_changes = []\<rparr>)"

definition apply_llm_output ::
  "'w os \<Rightarrow> string \<Rightarrow> string \<Rightarrow> string \<Rightarrow> 'w \<Rightarrow> py_exception + response" where
  "apply_llm_output os repo_path target_version response_text w =
     (case parse_and_apply os repo_path response_text w of
        Inl e \<Rightarrow> Inl e
      | Inr st \<Rightarrow> Inr (upgrade_response target_version st))"

section \<open>Facts about the loop\<close>

lemma upgrade_loop_done:
  "length lines \<le> i \<Longrightarrow> upgrade_loop os repo_path lines i st = Inr st"
  by (subst upgrade_loop.simps) simp

lemma upgrade_loop_step:
  "i < length lines \<Longrightarrow> parse_step os repo_path lines i st = Inr (j, st') \<Longrightarrow>
   upgrade_loop os repo_path lines i st = upgrade_loop os repo_path lines j st'"
  by (subst upgrade_loop.simps) simp

lemma upgrade_loop_raise:
  "i < length lines \<Longrightarrow> parse_step os repo_path lines i st = Inl e \<Longrightarrow>
   upgrade_loop os repo_path lines i st = Inl e"
  by (subst upgrade_loop.simps) simp

lemma collect_content_takeWhile:
  "collect_content lines i acc =
     (i + length (takeWhile (\<lambda>l. strip l \<noteq> fence) (drop i lines)),
      acc @ takeWhile (\<lambda>l. strip l \<noteq> fence) (drop i lines))"
proof (induction lines i acc rule: collect_content.induct)
  case (1 lines i acc)
  show ?case
  proof (cases "i < length lines \<and> strip (lines ! i) \<noteq> fence")
    case True
    then have d: "drop i lines = lines ! i # drop (i + 1) lines"
      by (simp add: Cons_nth_drop_Suc)
    from True 1 show ?thesis
      by (subst collect_content.simps) (simp add: d)
  next
    case False
    show ?thesis
    proof (cases "i < length lines")
      case True
      then have d: "drop i lines = lines ! i # drop (i + 1) lines"
        by (simp add: Cons_nth_drop_Suc)
      from True False show ?thesis
        by (subst collect_content.simps) (simp add: d)
    next
      case False
      then show ?thesis
        by (subst collect_content.simps) simp
    qed
  qed
qed



section \<open>The containment check\<close>

text \<open>
  The property the check is meant to decide: the components of the canonical target begin
  with the components of the canonical root. A canonical path is a slash followed by its
  components joined by slashes, as \<open>realpath\<close> returns it.
\<close>

definition canonical_path :: "string \<Rightarrow> bool" where
  "canonical_path p = (p = ''/'' @ str_join ''/'' (path_components p))"

definition path_within :: "string \<Rightarrow> string \<Rightarrow> bool" where
  "path_within real_root target = prefix (path_components real_root) (path_components target)"

lemma str_join_length:
  "length (str_join s xs) = sum_list (map length xs) + (length xs - 1) * length s"
  by (induction s xs rule: str_join.induct) simp_all

lemma str_join_append_eq:
  assumes "str_join s (xs @ ys) = str_join s xs" and "\<forall>y \<in> set ys. y \<noteq> []"
  shows "ys = []"
proof (rule ccontr)
  assume "ys \<noteq> []"
  then obtain y ys' where ys: "ys = y # ys'"
    by (cases ys) auto
  with assms(2) have "0 < length y"
    by simp
  then have pos: "0 < sum_list (map length ys)"
    by (simp add: ys)
  have "length xs - 1 \<le> length (xs @ ys) - 1"
    by simp
  then have le: "(length xs - 1) * length s \<le> (length (xs @ ys) - 1) * length s"
    by (rule mult_le_mono1)
  have "length (str_join s (xs @ ys)) =
          sum_list (map length xs) + sum_list (map length ys) +
          (length (xs @ ys) - 1) * length s"
    by (simp only: str_join_length map_append sum_list_append)
  moreover have "length (str_join s xs) = sum_list (map length xs) + (length xs - 1) * length s"
    by (rule str_join_length)
  ultimately have "length (str_join s xs) < length (str_join s (xs @ ys))"
    using pos le by linarith
  with assms(1) show False
    by simp
qed

lemma path_components_nonempty: "\<forall>c \<in> set (path_components p). c \<noteq> []"
  by (simp add: path_components_def)

lemma startswith_append: "startswith (p @ q) p"
  by (simp add: startswith_def)

lemma canonical_path_absolute:
  assumes "canonical_path real_root"
  shows "startswith real_root ''/''"
proof -
  from assms have r: "real_root = ''/'' @ str_join ''/'' (path_components real_root)"
    by (simp add: canonical_path_def)
  show ?thesis
    by (subst r) (rule startswith_append)
qed

lemma commonpath_is_root:
  assumes "canonical_path real_root" and "startswith target ''/''"
  shows "commonpath [real_root, target] =
           Inr (''/'' @ str_join ''/''
                  (longest_common_prefix (path_components target) (path_components real_root)))"
  using canonical_path_absolute [OF assms(1)] assms(2) by (simp add: commonpath_def)

lemma common_prefix_is_root:
  assumes "canonical_path real_root"
  shows "(''/'' @ str_join ''/''
            (longest_common_prefix (path_components target) (path_components real_root)) = real_root)
         = path_within real_root target"
proof -
  define R where "R = path_components real_root"
  define T where "T = path_components target"
  define L where "L = longest_common_prefix T R"
  from assms have r: "real_root = ''/'' @ str_join ''/'' R"
    by (simp add: canonical_path_def R_def)
  have nonempty: "\<forall>c \<in> set R. c \<noteq> []"
    unfolding R_def by (rule path_components_nonempty)
  have LR: "prefix L R" and LT: "prefix L T"
    by (simp_all add: L_def longest_common_prefix_prefix1 longest_common_prefix_prefix2)
  have "(''/'' @ str_join ''/'' L = real_root) = prefix R T"
  proof
    assume a: "''/'' @ str_join ''/'' L = real_root"
    have "''/'' @ str_join ''/'' L = ''/'' @ str_join ''/'' R"
      using a r by (rule trans)
    then have eq: "str_join ''/'' L = str_join ''/'' R"
      by simp
    from LR obtain rest where rest: "R = L @ rest"
      by (auto simp: prefix_def)
    from nonempty have "\<forall>y \<in> set rest. y \<noteq> []"
      by (simp add: rest)
    moreover from eq have "str_join ''/'' (L @ rest) = str_join ''/'' L"
      by (simp add: rest)
    ultimately have "rest = []"
      by (rule str_join_append_eq [rotated])
    with rest LT show "prefix R T"
      by simp
  next
    assume "prefix R T"
    then have "prefix R L"
      by (simp add: L_def longest_common_prefix_max_prefix)
    with LR have "L = R"
      by (simp add: prefix_order.antisym)
    then show "''/'' @ str_join ''/'' L = real_root"
      using r by simp
  qed
  then show ?thesis
    by (simp add: path_within_def L_def R_def T_def)
qed

lemma path_is_unsafe_iff:
  assumes "realpath os w repo_path = Inr real_root"
    and "realpath os w abs_file_path = Inr target"
    and "canonical_path real_root" and "startswith target ''/''"
  shows "path_is_unsafe os w repo_path abs_file_path = Inr (\<not> path_within real_root target)"
  using assms common_prefix_is_root [OF assms(3), of target]
  by (simp add: path_is_unsafe_def commonpath_is_root)

section \<open>One step of the loop at a header line\<close>

lemma parse_step_unsafe:
  assumes "is_file_header (lines ! i)"
    and "path_is_unsafe os (world st) repo_path
           (path_join repo_path (header_path (lines ! i))) = Inr True"
  shows "parse_step os repo_path lines i st = Inr (i + 1, st)"
  using assms by (simp add: parse_step_def Let_def)

lemma parse_step_no_fence:
  assumes "is_file_header (lines ! i)"
    and "path_is_unsafe os (world st) repo_path
           (path_join repo_path (header_path (lines ! i))) = Inr False"
    and "\<not> (i + 1 < length lines \<and> strip (lines ! (i + 1)) = fence)"
  shows "parse_step os repo_path lines i st = Inr (i + 1, st)"
  using assms by (auto simp: parse_step_def Let_def)

lemma parse_step_fence:
  assumes "is_file_header (lines ! i)"
    and "path_is_unsafe os (world st) repo_path
           (path_join repo_path (header_path (lines ! i))) = Inr False"
    and "i + 1 < length lines" and "strip (lines ! (i + 1)) = fence"
    and "body = takeWhile (\<lambda>l. strip l \<noteq> fence) (drop (i + 2) lines)"
    and "j = i + 2 + length body"
  shows "parse_step os repo_path lines i st =
           (if j < length lines
            then Inr (j + 1, write_changes os (path_join repo_path (header_path (lines ! i))) body st)
            else Inr (j, st\<lparr>errors_applying_changes :=
                           errors_applying_changes st @
                             [Incomplete (basename (header_path (lines ! i)))]\<rparr>))"
proof -
  have c: "collect_content lines (i + 1 + 1) [] = (j, body)"
    using assms(5,6) by (simp add: collect_content_takeWhile)
  have "strip (lines ! j) = fence" if "j < length lines"
  proof -
    let ?P = "\<lambda>l. strip l \<noteq> fence"
    have "length (takeWhile ?P (drop (i + 2) lines)) < length (drop (i + 2) lines)"
      using that assms(5,6) by simp
    then have "\<not> ?P (drop (i + 2) lines ! length (takeWhile ?P (drop (i + 2) lines)))"
      by (rule nth_length_takeWhile)
    moreover have "drop (i + 2) lines ! length body = lines ! j"
      using that assms(6) by (simp add: add.commute add.left_commute)
    ultimately show ?thesis
      using assms(5) by simp
  qed
  with assms(1-4) c show ?thesis
    by (simp add: parse_step_def Let_def)
qed

lemma block_lines:
  fixes pre body tail :: "string list" and header open_fence :: string
  defines "lines \<equiv> pre @ header # open_fence # body @ tail"
  shows "lines ! length pre = header"
    and "lines ! (length pre + 1) = open_fence"
    and "drop (length pre + 2) lines = body @ tail"
    and "length pre + 1 < length lines"
proof -
  show "lines ! length pre = header"
    by (simp add: lines_def)
  show "lines ! (length pre + 1) = open_fence"
    by (simp add: lines_def nth_append)
  have "lines = (pre @ [header, open_fence]) @ body @ tail"
    by (simp add: lines_def)
  then show "drop (length pre + 2) lines = body @ tail"
    by (simp only: drop_append) simp
  show "length pre + 1 < length lines"
    by (simp add: lines_def)
qed

lemma parse_step_block:
  assumes "is_file_header header"
    and "path_is_unsafe os (world st) repo_path
           (path_join repo_path (header_path header)) = Inr False"
    and "strip open_fence = fence"
    and "\<forall>l \<in> set body. strip l \<noteq> fence"
    and "strip close_fence = fence"
  shows "parse_step os repo_path (pre @ header # open_fence # body @ close_fence # rest)
           (length pre) st =
         Inr (length pre + length body + 3,
              write_changes os (path_join repo_path (header_path header)) body st)"
proof -
  define lines where "lines = pre @ header # open_fence # body @ close_fence # rest"
  let ?P = "\<lambda>l. strip l \<noteq> fence"
  note bl = block_lines [of pre header open_fence body "close_fence # rest", folded lines_def]
  have h1: "is_file_header (lines ! length pre)"
    using assms(1) bl(1) by simp
  have h2: "path_is_unsafe os (world st) repo_path
              (path_join repo_path (header_path (lines ! length pre))) = Inr False"
    using assms(2) bl(1) by simp
  have h4: "strip (lines ! (length pre + 1)) = fence"
    using assms(3) bl(2) by simp
  have "takeWhile ?P (body @ close_fence # rest) = body"
    using assms(4,5) by simp
  then have h5: "body = takeWhile ?P (drop (length pre + 2) lines)"
    using bl(3) by simp
  have len: "length pre + 2 + length body < length lines"
    by (simp add: lines_def)
  have "parse_step os repo_path lines (length pre) st =
          Inr (length pre + 2 + length body + 1,
               write_changes os (path_join repo_path (header_path (lines ! length pre))) body st)"
    using parse_step_fence [OF h1 h2 bl(4) h4 h5 refl] len by simp
  then show ?thesis
    using bl(1) by (simp add: lines_def)
qed


lemma write_changes_success:
  assumes "makedirs os (world st) (dirname p) = (w1, None)"
    and "write_file os w1 p (str_join [CHR 0x0A] body) = (w2, None)"
  shows "write_changes os p body st =
           st\<lparr>world := w2, updated_files_count := updated_files_count st + 1\<rparr>"
  using assms by (simp add: write_changes_def)

lemma upgrade_loop_block:
  assumes "is_file_header header"
    and "path_is_unsafe os (world st) repo_path
           (path_join repo_path (header_path header)) = Inr False"
    and "strip open_fence = fence"
    and "list_all (\<lambda>l. strip l \<noteq> fence) body"
    and "strip close_fence = fence"
  shows "upgrade_loop os repo_path (pre @ header # open_fence # body @ close_fence # rest)
           (length pre) st =
         upgrade_loop os repo_path (pre @ header # open_fence # body @ close_fence # rest)
           (length pre + length body + 3)
           (write_changes os (path_join repo_path (header_path header)) body st)"
proof -
  let ?lines = "pre @ header # open_fence # body @ close_fence # rest"
  from assms(4) have body: "\<forall>l \<in> set body. strip l \<noteq> fence"
    by (simp add: list_all_iff)
  have "parse_step os repo_path ?lines (length pre) st =
          Inr (length pre + length body + 3,
               write_changes os (path_join repo_path (header_path header)) body st)"
    using assms(1,2,3) body assms(5) by (rule parse_step_block)
  moreover have "length pre < length ?lines"
    by simp
  ultimately show ?thesis
    by (simp only: upgrade_loop_step)
qed

lemma takeWhile_stops:
  assumes "k + length (takeWhile P (drop k xs)) < length xs"
  shows "\<not> P (xs ! (k + length (takeWhile P (drop k xs))))"
proof -
  have "length (takeWhile P (drop k xs)) < length (drop k xs)"
    using assms by simp
  then have "\<not> P (drop k xs ! length (takeWhile P (drop k xs)))"
    by (rule nth_length_takeWhile)
  moreover have "drop k xs ! length (takeWhile P (drop k xs)) =
                   xs ! (k + length (takeWhile P (drop k xs)))"
    using assms by simp
  ultimately show ?thesis
    by simp
qed

text \<open>
  The loop is total. It returns normally whenever \<open>realpath\<close> returns (an absolute path):
  the only exceptions that leave it are those of the path check.
\<close>

lemma path_is_unsafe_returns:
  assumes "\<forall>w p. \<exists>r. realpath os w p = Inr r \<and> startswith r ''/''"
  shows "\<exists>b. path_is_unsafe os w repo_path abs_file_path = Inr b"
proof -
  from assms obtain r1 where r1: "realpath os w repo_path = Inr r1" "startswith r1 ''/''"
    by blast
  from assms obtain r2 where r2: "realpath os w abs_file_path = Inr r2" "startswith r2 ''/''"
    by blast
  from r1 r2 show ?thesis
    by (simp add: path_is_unsafe_def commonpath_def)
qed

lemma parse_step_returns:
  assumes "\<forall>w p. \<exists>r. realpath os w p = Inr r \<and> startswith r ''/''"
  shows "\<exists>j st'. parse_step os repo_path lines i st = Inr (j, st')"
proof -
  obtain b where "path_is_unsafe os (world st) repo_path
                    (path_join repo_path (header_path (lines ! i))) = Inr b"
    using path_is_unsafe_returns [OF assms] by blast
  then show ?thesis
    by (cases b) (auto simp: parse_step_def Let_def split: prod.splits)
qed

lemma upgrade_loop_returns:
  assumes "\<forall>w p. \<exists>r. realpath os w p = Inr r \<and> startswith r ''/''"
  shows "\<exists>st'. upgrade_loop os repo_path lines i st = Inr st'"
proof (induction "length lines - i" arbitrary: i st rule: less_induct)
  case less
  show ?case
  proof (cases "i < length lines")
    case True
    obtain j st1 where step: "parse_step os repo_path lines i st = Inr (j, st1)"
      using parse_step_returns [OF assms] by blast
    then have "i < j"
      by (rule parse_step_advances)
    with True have "length lines - j < length lines - i"
      by simp
    then obtain st' where "upgrade_loop os repo_path lines j st1 = Inr st'"
      using less by blast
    with True step show ?thesis
      by (simp add: upgrade_loop_step)
  next
    case False
    then show ?thesis
      by (simp add: upgrade_loop_done)
  qed
qed

section \<open>A POSIX file system without symbolic links\<close>

text \<open>
  A concrete instance of the interface, for running the program: a file system as an
  association list from canonical paths (lists of components below the root) to nodes.
  The root is a directory. There are no symbolic links and no permissions, and space is
  unlimited; \<open>cwd\<close> is the absolute path of the working directory.
\<close>

datatype node = Dir | File string

type_synonym fsys = "(string list \<times> node) list"

definition fs_lookup :: "fsys \<Rightarrow> string list \<Rightarrow> node option" where
  "fs_lookup fs p = (if p = [] then Some Dir else map_of fs p)"

text \<open>
  \<open>posixpath.realpath\<close>: \<open>os.lstat\<close> raises \<open>ValueError\<close> on a NUL character, and that
  exception is not caught; without links the result is lexical, the components \<open>.\<close> and
  the empty one dropped, \<open>..\<close> removing the component before it (none at the root).
\<close>

fun resolve_components :: "string list \<Rightarrow> string list \<Rightarrow> string list" where
  "resolve_components path [] = path"
| "resolve_components path (name # rest) =
     (if name = [] \<or> name = ''.'' then resolve_components path rest
      else if name = ''..'' then resolve_components (butlast path) rest
      else resolve_components (path @ [name]) rest)"

definition from_cwd :: "string \<Rightarrow> string \<Rightarrow> string" where
  "from_cwd cwd p = (if startswith p ''/'' then p else cwd @ ''/'' @ p)"

definition posix_realpath :: "string \<Rightarrow> fsys \<Rightarrow> string \<Rightarrow> py_exception + string" where
  "posix_realpath cwd fs filename =
     (if CHR 0x00 \<in> set filename then Inl ValueError
      else Inr (''/'' @ str_join ''/''
             (resolve_components [] (split_on (CHR ''/'') (from_cwd cwd filename)))))"

text \<open>
  The kernel's path lookup from the directory \<open>cur\<close>: every component but the last must
  be an existing directory; the result is the canonical place of the last one and the
  node there, if any.
\<close>

fun namei :: "fsys \<Rightarrow> string list \<Rightarrow> string list
    \<Rightarrow> py_exception + (string list \<times> node option)" where
  "namei fs cur [] = Inr (cur, Some Dir)"
| "namei fs cur (c # cs) =
     (if c = [] \<or> c = ''.'' then namei fs cur cs
      else if c = ''..'' then namei fs (butlast cur) cs
      else (case fs_lookup fs (cur @ [c]) of
              None \<Rightarrow> if cs = [] then Inr (cur @ [c], None) else Inl FileNotFoundError
            | Some (File x) \<Rightarrow>
                if cs = [] then Inr (cur @ [c], Some (File x)) else Inl NotADirectoryError
            | Some Dir \<Rightarrow> namei fs (cur @ [c]) cs))"

definition lookup_path :: "string \<Rightarrow> fsys \<Rightarrow> string
    \<Rightarrow> py_exception + (string list \<times> node option)" where
  "lookup_path cwd fs p =
     (if CHR 0x00 \<in> set p then Inl ValueError
      else if p = [] then Inl FileNotFoundError
      else namei fs [] (split_on (CHR ''/'') (from_cwd cwd p)))"

text \<open>\<open>os.path.exists\<close> and \<open>os.path.isdir\<close>: every failure of the lookup is \<open>False\<close>.\<close>

definition posix_exists :: "string \<Rightarrow> fsys \<Rightarrow> string \<Rightarrow> bool" where
  "posix_exists cwd fs p =
     (case lookup_path cwd fs p of Inr (loc, Some n) \<Rightarrow> True | _ \<Rightarrow> False)"

definition posix_isdir :: "string \<Rightarrow> fsys \<Rightarrow> string \<Rightarrow> bool" where
  "posix_isdir cwd fs p =
     (case lookup_path cwd fs p of Inr (loc, Some Dir) \<Rightarrow> True | _ \<Rightarrow> False)"

text \<open>\<open>os.mkdir\<close>: trailing slashes are ignored; an existing last component is an error.\<close>

definition posix_mkdir :: "string \<Rightarrow> fsys \<Rightarrow> string \<Rightarrow> fsys \<times> py_exception option" where
  "posix_mkdir cwd fs p =
     (if CHR 0x00 \<in> set p then (fs, Some ValueError)
      else if p = [] then (fs, Some FileNotFoundError)
      else case namei fs [] (rev (dropWhile (\<lambda>c. c = []) (rev (split_on (CHR ''/'') (from_cwd cwd p))))) of
             Inl e \<Rightarrow> (fs, Some e)
           | Inr (loc, Some n) \<Rightarrow> (fs, Some FileExistsError)
           | Inr (loc, None) \<Rightarrow> ((loc, Dir) # fs, None))"

text \<open>
  \<open>os.makedirs(name, exist_ok=True)\<close>, as the library writes it: split off the last
  component, create the head first when it is missing (a \<open>FileExistsError\<close> there is
  ignored), then \<open>mkdir\<close>, whose \<open>OSError\<close> is ignored when the directory exists.
\<close>

definition makedirs_split :: "string \<Rightarrow> string \<times> string" where
  "makedirs_split name =
     (let (head, tail) = path_split name
      in if tail = [] then path_split head else (head, tail))"

definition is_OSError :: "py_exception \<Rightarrow> bool" where
  "is_OSError e = (e \<in> set [FileNotFoundError, FileExistsError, NotADirectoryError, IsADirectoryError])"

definition mkdir_exist_ok :: "string \<Rightarrow> fsys \<Rightarrow> string \<Rightarrow> fsys \<times> py_exception option" where
  "mkdir_exist_ok cwd fs name =
     (case posix_mkdir cwd fs name of
        (fs', None) \<Rightarrow> (fs', None)
      | (fs', Some e) \<Rightarrow>
          if is_OSError e \<and> posix_isdir cwd fs' name then (fs', None) else (fs', Some e))"

lemma rstrip_chars_length: "length (rstrip_chars P s) \<le> length s"
  using length_dropWhile_le [of P "rev s"] by (simp add: rstrip_chars_def)

lemma path_split_length: "length (fst (path_split p)) + length (snd (path_split p)) \<le> length p"
proof -
  define tail where "tail = rev (takeWhile (\<lambda>c. c \<noteq> CHR ''/'') (rev p))"
  define head where "head = take (length p - length tail) p"
  have t: "length tail \<le> length p"
    using length_takeWhile_le [of "\<lambda>c. c \<noteq> CHR ''/''" "rev p"] by (simp add: tail_def)
  have h: "length head = length p - length tail"
    by (simp add: head_def)
  have "length (fst (path_split p)) \<le> length head"
    using rstrip_chars_length [of "\<lambda>c. c = CHR ''/''" head]
    by (simp add: path_split_def Let_def tail_def [symmetric] head_def [symmetric])
  moreover have "snd (path_split p) = tail"
    by (simp add: path_split_def Let_def tail_def)
  ultimately show ?thesis
    using t h by simp
qed

lemma makedirs_split_length:
  assumes "makedirs_split name = (head, tail)" and "tail \<noteq> []"
  shows "length head < length name"
proof -
  obtain h t where ht: "path_split name = (h, t)"
    by (cases "path_split name")
  have l1: "length h + length t \<le> length name"
    using path_split_length [of name] ht by simp
  show ?thesis
  proof (cases "t = []")
    case True
    with assms ht have "path_split h = (head, tail)"
      by (simp add: makedirs_split_def)
    then have "length head + length tail \<le> length h"
      using path_split_length [of h] by simp
    with assms(2) l1 show ?thesis
      by (cases tail) auto
  next
    case False
    with assms ht have "h = head" "t = tail"
      by (simp_all add: makedirs_split_def)
    with assms(2) l1 show ?thesis
      by (cases tail) auto
  qed
qed

function posix_makedirs :: "string \<Rightarrow> fsys \<Rightarrow> string \<Rightarrow> fsys \<times> py_exception option" where
  "posix_makedirs cwd fs name =
     (case makedirs_split name of
        (head, tail) \<Rightarrow>
          if head \<noteq> [] \<and> tail \<noteq> [] \<and> \<not> posix_exists cwd fs head then
            (case posix_makedirs cwd fs head of
               (fs1, Some e) \<Rightarrow>
                 if e = FileExistsError
                 then (if tail = ''.'' then (fs1, None) else mkdir_exist_ok cwd fs1 name)
                 else (fs1, Some e)
             | (fs1, None) \<Rightarrow>
                 if tail = ''.'' then (fs1, None) else mkdir_exist_ok cwd fs1 name)
          else mkdir_exist_ok cwd fs name)"
  by pat_completeness auto
termination
proof (relation "measure (\<lambda>(cwd, fs, name). length name)")
  show "wf (measure (\<lambda>(cwd, fs, name). length name))"
    by simp
next
  fix cwd :: string and fs :: fsys and name head tail
  assume "(head, tail) = makedirs_split name"
    and "head \<noteq> [] \<and> tail \<noteq> [] \<and> \<not> posix_exists cwd fs head"
  then have "length head < length name"
    using makedirs_split_length [of name head tail] by simp
  then show "((cwd, fs, head), (cwd, fs, name)) \<in> measure (\<lambda>(cwd, fs, name). length name)"
    by simp
qed

declare posix_makedirs.simps [simp del]

text \<open>
  \<open>with open(p, 'w', encoding='utf-8') as f: f.write(content)\<close>: the file is created or
  truncated and written; a directory, or a path that ends in a slash, cannot be opened
  for writing.
\<close>

definition posix_write_file ::
  "string \<Rightarrow> fsys \<Rightarrow> string \<Rightarrow> string \<Rightarrow> fsys \<times> py_exception option" where
  "posix_write_file cwd fs p content =
     (if CHR 0x00 \<in> set p then (fs, Some ValueError)
      else if p = [] then (fs, Some FileNotFoundError)
      else if endswith p ''/'' then
        (case namei fs [] (rev (dropWhile (\<lambda>c. c = []) (rev (split_on (CHR ''/'') (from_cwd cwd p))))) of
           Inl e \<Rightarrow> (fs, Some e)
         | Inr (loc, Some (File x)) \<Rightarrow> (fs, Some NotADirectoryError)
         | Inr (loc, _) \<Rightarrow> (fs, Some IsADirectoryError))
      else
        (case namei fs [] (split_on (CHR ''/'') (from_cwd cwd p)) of
           Inl e \<Rightarrow> (fs, Some e)
         | Inr (loc, Some Dir) \<Rightarrow> (fs, Some IsADirectoryError)
         | Inr (loc, _) \<Rightarrow> ((loc, File content) # fs, None)))"

definition posix_os :: "string \<Rightarrow> fsys os" where
  "posix_os cwd =
     \<lparr>realpath = posix_realpath cwd, makedirs = posix_makedirs cwd,
      write_file = posix_write_file cwd\<rparr>"

section \<open>\<open>detect_java_version\<close>\<close>

text \<open>
  An element of the parsed \<open>pom.xml\<close> as \<open>xml.etree.ElementTree\<close> gives it: the tag with
  its namespace in braces, the text before the first child (\<open>None\<close> when there is none)
  and the children in document order.
\<close>

datatype xml = Element (elem_tag: string) (elem_text: "string option") (elem_children: "xml list")

definition mvn :: "string \<Rightarrow> string" where
  "mvn name = ''{http://maven.apache.org/POM/4.0.0}'' @ name"

text \<open>The elements below \<open>e\<close>, at every depth, in document order: the path \<open>.//\<close>.\<close>

fun descendants :: "xml \<Rightarrow> xml list" where
  "descendants (Element t x cs) = concat (map (\<lambda>c. c # descendants c) cs)"

text \<open>\<open>root.findall(".//mvn:properties", ns)\<close> and \<open>prop.find(tag, ns)\<close>.\<close>

definition findall_properties :: "xml \<Rightarrow> xml list" where
  "findall_properties pom_root =
     filter (\<lambda>e. elem_tag e = mvn ''properties'') (descendants pom_root)"

definition find_child :: "string \<Rightarrow> xml \<Rightarrow> xml option" where
  "find_child t e = List.find (\<lambda>c. elem_tag c = t) (elem_children e)"

text \<open>
  The \<open>for prop in ...\<close> loop with its \<open>break\<close>: the first \<open>properties\<close> element whose
  first child of the tag has a non-empty text sets \<open>current_version\<close> to that text,
  stripped.
\<close>

fun scan_properties :: "string \<Rightarrow> xml list \<Rightarrow> string \<Rightarrow> string" where
  "scan_properties t [] current_version = current_version"
| "scan_properties t (prop # props) current_version =
     (case find_child t prop of
        None \<Rightarrow> scan_properties t props current_version
      | Some java_version_element \<Rightarrow>
          (case elem_text java_version_element of
             None \<Rightarrow> scan_properties t props current_version
           | Some txt \<Rightarrow>
               if txt \<noteq> [] then strip txt else scan_properties t props current_version))"

definition pom_version :: "xml \<Rightarrow> string \<Rightarrow> string" where
  "pom_version pom_root current_version0 =
     (let current_version =
            scan_properties (mvn ''maven.compiler.source'') (findall_properties pom_root)
              current_version0
      in if current_version = ''Unknown''
         then scan_properties (mvn ''java.version'') (findall_properties pom_root) current_version
         else current_version)"

text \<open>\<open>s.split()\<close>: the maximal runs of characters that are not whitespace.\<close>

fun split_whitespace_from :: "string \<Rightarrow> string \<Rightarrow> string list" where
  "split_whitespace_from cur [] = (if cur = [] then [] else [cur])"
| "split_whitespace_from cur (c # cs) =
     (if is_space c
      then (if cur = [] then split_whitespace_from [] cs else cur # split_whitespace_from [] cs)
      else split_whitespace_from (cur @ [c]) cs)"

definition split_whitespace :: "string \<Rightarrow> string list" where
  "split_whitespace s = split_whitespace_from [] s"

text \<open>The body of the loop over the lines of \<open>build.gradle\<close>: the version a line gives.\<close>

definition gradle_line_version :: "string \<Rightarrow> string option" where
  "gradle_line_version line0 =
     (let line = strip line0 in
      if startswith line ''sourceCompatibility'' \<or> startswith line ''targetCompatibility'' then
        (let parts = split_whitespace line in
         if length parts > 1 then
           (let version_part =
                  strip_chars (\<lambda>c. c = CHR '';'')
                    (strip_chars (\<lambda>c. c = CHR 0x22)
                       (strip_chars (\<lambda>c. c = CHR 0x27) (last parts)))
            in if version_part \<noteq> [] then Some version_part else None)
         else None)
      else None)"

fun gradle_version :: "string list \<Rightarrow> string \<Rightarrow> string" where
  "gradle_version [] current_version = current_version"
| "gradle_version (line # rest) current_version =
     (case gradle_line_version line of
        Some version_part \<Rightarrow> version_part
      | None \<Rightarrow> gradle_version rest current_version)"

text \<open>
  The two manifests as the function finds them: absent, present but raising while being
  read or parsed (the exception is caught), or read.
\<close>

datatype pom_file = NoPom | BadPom | Pom xml

datatype gradle_file = NoGradle | BadGradle | Gradle "string list"

definition detect_current_version :: "pom_file \<Rightarrow> gradle_file \<Rightarrow> string" where
  "detect_current_version pom gradle =
     (let current_version0 = ''Unknown'';
          current_version1 =
            (case pom of Pom pom_root \<Rightarrow> pom_version pom_root current_version0 | _ \<Rightarrow> current_version0)
      in if current_version1 = ''Unknown''
         then (case gradle of
                 Gradle lines \<Rightarrow> gradle_version lines current_version1
               | _ \<Rightarrow> current_version1)
         else current_version1)"

subsection \<open>\<open>int(float(current_version))\<close>\<close>

text \<open>
  A Python \<open>float\<close>: a finite double, given by its exact value, an infinity or a NaN.
\<close>

datatype pyfloat = Finite rat | PosInf | NegInf | NaN

definition pow2 :: "int \<Rightarrow> rat" where
  "pow2 k = (if 0 \<le> k then 2 ^ nat k else 1 / 2 ^ nat (- k))"

function bit_length :: "int \<Rightarrow> nat" where
  "bit_length n = (if n \<le> 0 then 0 else Suc (bit_length (n div 2)))"
  by pat_completeness auto
termination
  by (relation "measure nat") auto

declare bit_length.simps [simp del]

text \<open>The exponent \<open>e\<close> with \<open>2 ^ e \<le> a < 2 ^ (e + 1)\<close>, for a positive \<open>a\<close>.\<close>

definition floor_log2 :: "rat \<Rightarrow> int" where
  "floor_log2 a =
     (let (n, d) = quotient_of a;
          k = int (bit_length n) - int (bit_length d)
      in if pow2 k \<le> a then k else k - 1)"

definition round_half_even :: "rat \<Rightarrow> int" where
  "round_half_even x =
     (let f = \<lfloor>x\<rfloor>; d = x - of_int f
      in if d < 1 / 2 then f else if 1 / 2 < d then f + 1 else if even f then f else f + 1)"

text \<open>
  Rounding a rational to the nearest double (binary64, ties to even): 53 significant
  bits, the exponent of the last place not below \<open>-1074\<close>, overflow to an infinity.
\<close>

definition round_to_double :: "rat \<Rightarrow> pyfloat" where
  "round_to_double r =
     (if r = 0 then Finite 0
      else let a = \<bar>r\<bar>;
               q = pow2 (max (floor_log2 a) (- 1022) - 52);
               v = of_int (round_half_even (a / q)) * q
           in if pow2 1024 \<le> v then (if 0 < r then PosInf else NegInf)
              else Finite (if 0 < r then v else - v))"

definition is_digit :: "char \<Rightarrow> bool" where
  "is_digit c = (c \<in> set ''0123456789'')"

definition digit_val :: "char \<Rightarrow> int" where
  "digit_val c = of_char c - of_char (CHR ''0'')"

text \<open>
  A run of digits in which single underscores may stand between two digits; \<open>after\<close>
  tells that the character before was a digit. The digits read and the rest.
\<close>

fun take_digits :: "bool \<Rightarrow> string \<Rightarrow> int list \<times> string" where
  "take_digits after [] = ([], [])"
| "take_digits after [c] = (if is_digit c then ([digit_val c], []) else ([], [c]))"
| "take_digits after (c # d # cs) =
     (if is_digit c then (case take_digits True (d # cs) of (ns, r) \<Rightarrow> (digit_val c # ns, r))
      else if after \<and> c = CHR ''_'' \<and> is_digit d then take_digits False (d # cs)
      else ([], c # d # cs))"

definition digits_value :: "int list \<Rightarrow> int" where
  "digits_value ds = foldl (\<lambda>acc d. 10 * acc + d) 0 ds"

definition to_lower :: "char \<Rightarrow> char" where
  "to_lower c =
     (if of_char (CHR ''A'') \<le> (of_char c :: nat) \<and> (of_char c :: nat) \<le> of_char (CHR ''Z'')
      then char_of (of_char c + (32 :: nat)) else c)"

text \<open>The exponent part: nothing, or \<open>e\<close>, an optional sign and digits, up to the end.\<close>

definition parse_exponent :: "string \<Rightarrow> int option" where
  "parse_exponent s =
     (case s of
        [] \<Rightarrow> Some 0
      | c # cs \<Rightarrow>
          if c = CHR ''e'' \<or> c = CHR ''E'' then
            (let (neg, ds) =
                   (case cs of
                      [] \<Rightarrow> (False, cs)
                    | x # xs \<Rightarrow> if x = CHR ''-'' then (True, xs)
                               else if x = CHR ''+'' then (False, xs) else (False, cs))
             in case take_digits False ds of
                  (ns, r) \<Rightarrow>
                    if ns \<noteq> [] \<and> r = []
                    then Some (if neg then - digits_value ns else digits_value ns)
                    else None)
          else None)"

text \<open>
  The unsigned decimal literal: digits, an optional point and digits (at least one digit
  in all), an optional exponent. Its exact value.
\<close>

definition parse_decimal :: "string \<Rightarrow> rat option" where
  "parse_decimal s =
     (case take_digits False s of
        (ip, r1) \<Rightarrow>
          (let (fp, r2) =
                 (case r1 of
                    [] \<Rightarrow> ([], r1)
                  | c # cs \<Rightarrow> if c = CHR ''.'' then take_digits False cs else ([], r1))
           in if ip = [] \<and> fp = [] then None
              else (case parse_exponent r2 of
                      None \<Rightarrow> None
                    | Some e \<Rightarrow>
                        Some (of_int (digits_value (ip @ fp)) *
                              (if 0 \<le> e - int (length fp)
                               then 10 ^ nat (e - int (length fp))
                               else 1 / 10 ^ nat (int (length fp) - e))))))"

text \<open>
  \<open>float(s)\<close> on a string: surrounding whitespace is ignored, a sign may lead, \<open>inf\<close>,
  \<open>infinity\<close> and \<open>nan\<close> are read in any case; anything else but a decimal literal is a
  \<open>ValueError\<close>.
\<close>

definition py_float :: "string \<Rightarrow> py_exception + pyfloat" where
  "py_float s0 =
     (let s = strip s0;
          (neg, body) =
            (case s of
               [] \<Rightarrow> (False, s)
             | c # cs \<Rightarrow> if c = CHR ''-'' then (True, cs)
                        else if c = CHR ''+'' then (False, cs) else (False, s));
          low = map to_lower body
      in if low = ''inf'' \<or> low = ''infinity'' then Inr (if neg then NegInf else PosInf)
         else if low = ''nan'' then Inr NaN
         else (case parse_decimal body of
                 None \<Rightarrow> Inl ValueError
               | Some r \<Rightarrow> Inr (round_to_double (if neg then - r else r))))"

text \<open>\<open>int(x)\<close> on a float truncates toward zero; an infinity and a NaN raise.\<close>

definition py_int_of_float :: "pyfloat \<Rightarrow> py_exception + int" where
  "py_int_of_float x =
     (case x of
        Finite r \<Rightarrow> Inr (if 0 \<le> r then \<lfloor>r\<rfloor> else - \<lfloor>- r\<rfloor>)
      | PosInf \<Rightarrow> Inl OverflowError
      | NegInf \<Rightarrow> Inl OverflowError
      | NaN \<Rightarrow> Inl ValueError)"

text \<open>\<open>int(s)\<close> on a string: whitespace, a sign, digits with single underscores between.\<close>

definition py_int :: "string \<Rightarrow> py_exception + int" where
  "py_int s0 =
     (let s = strip s0;
          (neg, body) =
            (case s of
               [] \<Rightarrow> (False, s)
             | c # cs \<Rightarrow> if c = CHR ''-'' then (True, cs)
                        else if c = CHR ''+'' then (False, cs) else (False, s))
      in case take_digits False body of
           (ns, r) \<Rightarrow>
             if ns \<noteq> [] \<and> r = []
             then Inr (if neg then - digits_value ns else digits_value ns)
             else Inl ValueError)"

text \<open>The comprehension \<open>[v for v in suggested_versions if int(v) > current_major_version]\<close>.\<close>

fun filter_greater :: "int \<Rightarrow> string list \<Rightarrow> py_exception + string list" where
  "filter_greater current_major_version [] = Inr []"
| "filter_greater current_major_version (v # vs) =
     (case py_int v of
        Inl e \<Rightarrow> Inl e
      | Inr n \<Rightarrow>
          (case filter_greater current_major_version vs of
             Inl e \<Rightarrow> Inl e
           | Inr rest \<Rightarrow> Inr (if n > current_major_version then v # rest else rest)))"

definition suggested_versions0 :: "string list" where
  "suggested_versions0 = [''11'', ''17'', ''21'']"

text \<open>
  The \<open>try\<close> block and its \<open>except ValueError\<close>: a \<open>ValueError\<close> keeps all suggestions,
  any other exception leaves the function.
\<close>

definition filter_suggestions :: "string \<Rightarrow> py_exception + string list" where
  "filter_suggestions current_version =
     (let attempt =
            (case py_float current_version of
               Inl e \<Rightarrow> Inl e
             | Inr x \<Rightarrow>
                 (case py_int_of_float x of
                    Inl e \<Rightarrow> Inl e
                  | Inr current_major_version \<Rightarrow>
                      filter_greater current_major_version suggested_versions0))
      in case attempt of
           Inl e \<Rightarrow> if e = ValueError then Inr suggested_versions0 else Inl e
         | Inr filtered_suggestions \<Rightarrow> Inr filtered_suggestions)"

record version_info =
  current_version :: string
  suggested_versions :: "string list"

definition detect_java_version :: "pom_file \<Rightarrow> gradle_file \<Rightarrow> py_exception + version_info" where
  "detect_java_version pom gradle =
     (let cv = detect_current_version pom gradle
      in case filter_suggestions cv of
           Inl e \<Rightarrow> Inl e
         | Inr s \<Rightarrow> Inr \<lparr>current_version = cv, suggested_versions = s\<rparr>)"

subsection \<open>The first match\<close>

text \<open>
  What the scans are meant to find. A \<open>properties\<close> element gives a text for a tag when
  its first child of that tag has a non-empty text; the first element that gives one, in
  document order, decides.
\<close>

definition property_text :: "string \<Rightarrow> xml \<Rightarrow> string option" where
  "property_text t prop =
     (case find_child t prop of
        None \<Rightarrow> None
      | Some el \<Rightarrow>
          (case elem_text el of
             None \<Rightarrow> None
           | Some txt \<Rightarrow> if txt \<noteq> [] then Some txt else None))"

definition first_property :: "string \<Rightarrow> xml \<Rightarrow> string option" where
  "first_property t pom_root =
     (case List.map_filter (property_text t) (findall_properties pom_root) of
        [] \<Rightarrow> None
      | txt # _ \<Rightarrow> Some txt)"

lemma scan_properties_first:
  "scan_properties t props cv =
     (case List.map_filter (property_text t) props of [] \<Rightarrow> cv | txt # _ \<Rightarrow> strip txt)"
  by (induction props)
    (auto simp: property_text_def map_filter_simps split: option.splits)

lemma pom_version_first:
  "pom_version pom_root ''Unknown'' =
     (case first_property (mvn ''maven.compiler.source'') pom_root of
        Some txt \<Rightarrow>
          if strip txt \<noteq> ''Unknown'' then strip txt
          else (case first_property (mvn ''java.version'') pom_root of
                  Some txt2 \<Rightarrow> strip txt2
                | None \<Rightarrow> ''Unknown'')
      | None \<Rightarrow>
          (case first_property (mvn ''java.version'') pom_root of
             Some txt2 \<Rightarrow> strip txt2
           | None \<Rightarrow> ''Unknown''))"
  by (simp add: pom_version_def Let_def scan_properties_first first_property_def
           split: list.splits)

section \<open>\<open>find_java_files\<close>\<close>

text \<open>
  A directory tree: a file, or a directory with its named entries in the order in which
  \<open>os.scandir\<close> lists them. There are no symbolic links.
\<close>

datatype dir_tree = FileEntry | DirEntry "(string \<times> dir_tree) list"

fun is_dir_entry :: "dir_tree \<Rightarrow> bool" where
  "is_dir_entry (DirEntry es) = True"
| "is_dir_entry FileEntry = False"

text \<open>
  \<open>os.walk(top)\<close>, top down: for every directory its path, the names of its
  subdirectories and the names of its other entries, then the walks of the
  subdirectories. A top that is not a directory yields nothing.
\<close>

fun os_walk :: "string \<Rightarrow> dir_tree \<Rightarrow> (string \<times> string list \<times> string list) list" where
  "os_walk top_dir FileEntry = []"
| "os_walk top_dir (DirEntry entries) =
     (top_dir, map fst (filter (\<lambda>e. is_dir_entry (snd e)) entries),
           map fst (filter (\<lambda>e. \<not> is_dir_entry (snd e)) entries)) #
     concat (map (\<lambda>e. os_walk (path_join top_dir (fst e)) (snd e)) entries)"

definition find_java_files :: "string \<Rightarrow> dir_tree \<Rightarrow> string list" where
  "find_java_files project_dir tree =
     concat (map (\<lambda>(dirpath, dirs, files).
        concat (map (\<lambda>file.
          if endswith file ''.java'' then
            (if \<not> str_contains ''build'' dirpath \<and> \<not> str_contains ''target'' dirpath
             then [path_join dirpath file] else [])
          else []) files))
       (os_walk project_dir tree))"

definition example_tree :: dir_tree where
  "example_tree =
     DirEntry [(''pom.xml'', FileEntry),
       (''src'', DirEntry [(''Main.java'', FileEntry),
          (''builder'', DirEntry [(''Widget.java'', FileEntry)])]),
       (''target'', DirEntry [(''Gen.java'', FileEntry)])]"

section \<open>A working copy to run the program on\<close>

text \<open>
  A working copy at \<open>/tmp/proj\<close> with one source file, beside \<open>/etc/passwd\<close>, and the
  state in which the loop starts on it.
\<close>

definition example_fs :: fsys where
  "example_fs =
     [([''tmp''], Dir), ([''tmp'', ''proj''], Dir), ([''tmp'', ''proj'', ''src''], Dir),
      ([''tmp'', ''proj'', ''src'', ''A.java''], File ''class A {}''),
      ([''etc''], Dir), ([''etc'', ''passwd''], File ''root:x:0:0'')]"

definition example_state :: "fsys apply_state" where
  "example_state =
     \<lparr>world = example_fs, updated_files_count = 0, errors_applying_changes = []\<rparr>"

section \<open>The claims\<close>

text \<open>
  C1. A block whose header path resolves, after both paths are made canonical, to an
  absolute path that is not within the working-copy root is discarded: the step at the
  header returns the state as it was (nothing written, the counter and the error list
  unchanged) and scanning resumes at the next line. The header \<open>../../etc/passwd\<close> under
  the root \<open>/tmp/proj\<close> is such a block.
\<close>

theorem unsafe_path_discarded:
  assumes "i < length lines" and "is_file_header (lines ! i)"
    and "realpath os (world st) repo_path = Inr real_root"
    and "realpath os (world st) (path_join repo_path (header_path (lines ! i))) = Inr target"
    and "canonical_path real_root" and "startswith target ''/''"
    and "\<not> path_within real_root target"
  shows "parse_step os repo_path lines i st = Inr (i + 1, st) \<and>
         upgrade_loop os repo_path lines i st = upgrade_loop os repo_path lines (i + 1) st"
proof -
  have "path_is_unsafe os (world st) repo_path
          (path_join repo_path (header_path (lines ! i))) = Inr True"
    using path_is_unsafe_iff [OF assms(3,4,5,6)] assms(7) by simp
  with assms(2) have "parse_step os repo_path lines i st = Inr (i + 1, st)"
    by (rule parse_step_unsafe)
  with assms(1) show ?thesis
    by (simp add: upgrade_loop_step)
qed

theorem unsafe_path_discarded_witness:
  "is_file_header ''--- File: ../../etc/passwd ---'' \<and>
   realpath (posix_os ''/'') example_fs ''/tmp/proj'' = Inr ''/tmp/proj'' \<and>
   realpath (posix_os ''/'') example_fs
     (path_join ''/tmp/proj'' (header_path ''--- File: ../../etc/passwd ---'')) =
     Inr ''/etc/passwd'' \<and>
   canonical_path ''/tmp/proj'' \<and> startswith ''/etc/passwd'' ''/'' \<and>
   \<not> path_within ''/tmp/proj'' ''/etc/passwd'' \<and>
   parse_step (posix_os ''/'') ''/tmp/proj''
     [''--- File: ../../etc/passwd ---'', ''```'', ''root::0:0'', ''```''] 0 example_state =
     Inr (1, example_state) \<and>
   upgrade_loop (posix_os ''/'') ''/tmp/proj''
     [''--- File: ../../etc/passwd ---'', ''```'', ''root::0:0'', ''```''] 0 example_state =
     Inr example_state"
proof -
  let ?lines = "[''--- File: ../../etc/passwd ---'', ''```'', ''root::0:0'', ''```'']"
  have h1: "0 < length ?lines"
    by simp
  have h2: "is_file_header (?lines ! 0)"
    by code_simp
  have h3: "realpath (posix_os ''/'') (world example_state) ''/tmp/proj'' = Inr ''/tmp/proj''"
    by code_simp
  have h4: "realpath (posix_os ''/'') (world example_state)
              (path_join ''/tmp/proj'' (header_path (?lines ! 0))) = Inr ''/etc/passwd''"
    by code_simp
  have h5: "canonical_path ''/tmp/proj''"
    by code_simp
  have h6: "startswith ''/etc/passwd'' ''/''"
    by code_simp
  have h7: "\<not> path_within ''/tmp/proj'' ''/etc/passwd''"
    by code_simp
  have rest: "upgrade_loop (posix_os ''/'') ''/tmp/proj'' ?lines (0 + 1) example_state =
                Inr example_state"
    by code_simp
  have w: "world example_state = example_fs"
    by (simp add: example_state_def)
  show ?thesis
    using unsafe_path_discarded [OF h1 h2 h3 h4 h5 h6 h7] h2 h3 h4 h5 h6 h7 rest
    by (simp add: w)
qed






text \<open>
  C3, as stated, fails when the write fails. The header path \<open>src\<close> resolves to
  \<open>/tmp/proj/src\<close>, inside the root, and the block is well formed; but \<open>src\<close> is a
  directory, the \<open>open\<close> raises, the \<open>except\<close> clause records the error and the counter
  stays at 0.
\<close>

theorem single_block_write_fails:
  "is_file_header ''--- File: src ---'' \<and>
   realpath (posix_os ''/'') example_fs ''/tmp/proj'' = Inr ''/tmp/proj'' \<and>
   realpath (posix_os ''/'') example_fs
     (path_join ''/tmp/proj'' (header_path ''--- File: src ---'')) = Inr ''/tmp/proj/src'' \<and>
   path_within ''/tmp/proj'' ''/tmp/proj/src'' \<and>
   upgrade_loop (posix_os ''/'') ''/tmp/proj''
     [''--- File: src ---'', ''```'', ''class A {}'', ''```''] 0 example_state =
     Inr \<lparr>world = example_fs, updated_files_count = 0,
          errors_applying_changes = [CouldNotWrite ''src'' IsADirectoryError]\<rparr>"
  by code_simp

text \<open>
  C3, amended. For a response that is exactly one well-formed block (a header whose path
  resolves inside the root, a line that strips to the fence, body lines none of which
  strips to the fence, a line that strips to the fence) the pass creates the parent
  directories of the joined path and writes the body lines, joined by newlines, to it.
  When neither raises, it ends with the written world, a count of 1 and no errors. When
  \<open>makedirs\<close> raises, or the write does, the exception is caught and the pass ends with
  the world that call left, a count of 0 and exactly one error, naming the base name of
  the path and the exception.
\<close>

theorem single_block_written:
  assumes "is_file_header header"
    and "realpath os w repo_path = Inr real_root"
    and "realpath os w (path_join repo_path (header_path header)) = Inr target"
    and "canonical_path real_root" and "startswith target ''/''"
    and "path_within real_root target"
    and "strip open_fence = fence"
    and "list_all (\<lambda>l. strip l \<noteq> fence) body"
    and "strip close_fence = fence"
    and "abs_file_path = path_join repo_path (header_path header)"
  shows "upgrade_loop os repo_path (header # open_fence # body @ [close_fence]) 0
           \<lparr>world = w, updated_files_count = 0, errors_applying_changes = []\<rparr> =
         Inr (case makedirs os w (dirname abs_file_path) of
                (w1, Some e) \<Rightarrow>
                  \<lparr>world = w1, updated_files_count = 0,
                   errors_applying_changes = [CouldNotWrite (basename abs_file_path) e]\<rparr>
              | (w1, None) \<Rightarrow>
                  (case write_file os w1 abs_file_path (str_join [CHR 0x0A] body) of
                     (w2, Some e) \<Rightarrow>
                       \<lparr>world = w2, updated_files_count = 0,
                        errors_applying_changes = [CouldNotWrite (basename abs_file_path) e]\<rparr>
                   | (w2, None) \<Rightarrow>
                       \<lparr>world = w2, updated_files_count = 1, errors_applying_changes = []\<rparr>))"
proof -
  let ?st = "\<lparr>world = w, updated_files_count = 0, errors_applying_changes = []\<rparr>"
  let ?lines = "header # open_fence # body @ [close_fence]"
  have safe: "path_is_unsafe os (world ?st) repo_path
                (path_join repo_path (header_path header)) = Inr False"
    using path_is_unsafe_iff [OF assms(2,3,4,5)] assms(6) by simp
  have "upgrade_loop os repo_path ([] @ ?lines) (length ([] :: string list)) ?st =
          upgrade_loop os repo_path ([] @ ?lines) (length ([] :: string list) + length body + 3)
            (write_changes os (path_join repo_path (header_path header)) body ?st)"
    using assms(1) safe assms(7,8,9) by (rule upgrade_loop_block)
  then have "upgrade_loop os repo_path ?lines 0 ?st =
               upgrade_loop os repo_path ?lines (length body + 3)
                 (write_changes os abs_file_path body ?st)"
    by (simp add: assms(10))
  also have "\<dots> = Inr (write_changes os abs_file_path body ?st)"
    by (rule upgrade_loop_done) simp
  finally show ?thesis
    by (simp add: write_changes_def split: prod.splits option.splits)
qed


text \<open>
  Two runs of it: a block for \<open>src/A.java\<close>, which is written, and a block for
  \<open>src/A.java/B.java\<close>, for which \<open>makedirs\<close> raises because \<open>src/A.java\<close> is a file.
\<close>

theorem single_block_written_witness:
  "is_file_header ''--- File: src/A.java ---'' \<and>
   realpath (posix_os ''/'') example_fs ''/tmp/proj'' = Inr ''/tmp/proj'' \<and>
   realpath (posix_os ''/'') example_fs
     (path_join ''/tmp/proj'' (header_path ''--- File: src/A.java ---'')) =
     Inr ''/tmp/proj/src/A.java'' \<and>
   canonical_path ''/tmp/proj'' \<and> startswith ''/tmp/proj/src/A.java'' ''/'' \<and>
   path_within ''/tmp/proj'' ''/tmp/proj/src/A.java'' \<and>
   strip ''```'' = fence \<and>
   list_all (\<lambda>l. strip l \<noteq> fence) [''class A {'', ''}''] \<and>
   upgrade_loop (posix_os ''/'') ''/tmp/proj''
     (''--- File: src/A.java ---'' # ''```'' # [''class A {'', ''}''] @ [''```'']) 0
     \<lparr>world = example_fs, updated_files_count = 0, errors_applying_changes = []\<rparr> =
     Inr \<lparr>world =
            ([''tmp'', ''proj'', ''src'', ''A.java''], File (''class A {'' @ [CHR 0x0A] @ ''}'')) #
              example_fs,
          updated_files_count = 1, errors_applying_changes = []\<rparr> \<and>
   is_file_header ''--- File: src/A.java/B.java ---'' \<and>
   realpath (posix_os ''/'') example_fs
     (path_join ''/tmp/proj'' (header_path ''--- File: src/A.java/B.java ---'')) =
     Inr ''/tmp/proj/src/A.java/B.java'' \<and>
   startswith ''/tmp/proj/src/A.java/B.java'' ''/'' \<and>
   path_within ''/tmp/proj'' ''/tmp/proj/src/A.java/B.java'' \<and>
   upgrade_loop (posix_os ''/'') ''/tmp/proj''
     (''--- File: src/A.java/B.java ---'' # ''```'' # [''class A {'', ''}''] @ [''```'']) 0
     \<lparr>world = example_fs, updated_files_count = 0, errors_applying_changes = []\<rparr> =
     Inr \<lparr>world = example_fs, updated_files_count = 0,
          errors_applying_changes = [CouldNotWrite ''B.java'' FileExistsError]\<rparr>"
proof -
  let ?h = "''--- File: src/A.java ---''"
  let ?g = "''--- File: src/A.java/B.java ---''"
  have h1: "is_file_header ?h"
    by code_simp
  have h2: "realpath (posix_os ''/'') example_fs ''/tmp/proj'' = Inr ''/tmp/proj''"
    by code_simp
  have h3: "realpath (posix_os ''/'') example_fs (path_join ''/tmp/proj'' (header_path ?h)) =
              Inr ''/tmp/proj/src/A.java''"
    by code_simp
  have h4: "canonical_path ''/tmp/proj''"
    by code_simp
  have h5: "startswith ''/tmp/proj/src/A.java'' ''/''"
    by code_simp
  have h6: "path_within ''/tmp/proj'' ''/tmp/proj/src/A.java''"
    by code_simp
  have h7: "strip ''```'' = fence"
    by code_simp
  have h8: "list_all (\<lambda>l. strip l \<noteq> fence) [''class A {'', ''}'']"
    by code_simp
  have g1: "is_file_header ?g"
    by code_simp
  have g3: "realpath (posix_os ''/'') example_fs (path_join ''/tmp/proj'' (header_path ?g)) =
              Inr ''/tmp/proj/src/A.java/B.java''"
    by code_simp
  have g5: "startswith ''/tmp/proj/src/A.java/B.java'' ''/''"
    by code_simp
  have g6: "path_within ''/tmp/proj'' ''/tmp/proj/src/A.java/B.java''"
    by code_simp
  have e1: "(case makedirs (posix_os ''/'') example_fs
                 (dirname (path_join ''/tmp/proj'' (header_path ?h))) of
              (w1, Some e) \<Rightarrow>
                \<lparr>world = w1, updated_files_count = 0,
                 errors_applying_changes =
                   [CouldNotWrite (basename (path_join ''/tmp/proj'' (header_path ?h))) e]\<rparr>
            | (w1, None) \<Rightarrow>
                (case write_file (posix_os ''/'') w1 (path_join ''/tmp/proj'' (header_path ?h))
                        (str_join [CHR 0x0A] [''class A {'', ''}'']) of
                   (w2, Some e) \<Rightarrow>
                     \<lparr>world = w2, updated_files_count = 0,
                      errors_applying_changes =
                        [CouldNotWrite (basename (path_join ''/tmp/proj'' (header_path ?h))) e]\<rparr>
                 | (w2, None) \<Rightarrow>
                     \<lparr>world = w2, updated_files_count = 1, errors_applying_changes = []\<rparr>)) =
            \<lparr>world =
               ([''tmp'', ''proj'', ''src'', ''A.java''], File (''class A {'' @ [CHR 0x0A] @ ''}'')) #
                 example_fs,
             updated_files_count = 1, errors_applying_changes = []\<rparr>"
    by code_simp
  have e2: "(case makedirs (posix_os ''/'') example_fs
                 (dirname (path_join ''/tmp/proj'' (header_path ?g))) of
              (w1, Some e) \<Rightarrow>
                \<lparr>world = w1, updated_files_count = 0,
                 errors_applying_changes =
                   [CouldNotWrite (basename (path_join ''/tmp/proj'' (header_path ?g))) e]\<rparr>
            | (w1, None) \<Rightarrow>
                (case write_file (posix_os ''/'') w1 (path_join ''/tmp/proj'' (header_path ?g))
                        (str_join [CHR 0x0A] [''class A {'', ''}'']) of
                   (w2, Some e) \<Rightarrow>
                     \<lparr>world = w2, updated_files_count = 0,
                      errors_applying_changes =
                        [CouldNotWrite (basename (path_join ''/tmp/proj'' (header_path ?g))) e]\<rparr>
                 | (w2, None) \<Rightarrow>
                     \<lparr>world = w2, updated_files_count = 1, errors_applying_changes = []\<rparr>)) =
            \<lparr>world = example_fs, updated_files_count = 0,
             errors_applying_changes = [CouldNotWrite ''B.java'' FileExistsError]\<rparr>"
    by code_simp
  have t1: "upgrade_loop (posix_os ''/'') ''/tmp/proj''
     (?h # ''```'' # [''class A {'', ''}''] @ [''```'']) 0
     \<lparr>world = example_fs, updated_files_count = 0, errors_applying_changes = []\<rparr> =
     Inr \<lparr>world =
            ([''tmp'', ''proj'', ''src'', ''A.java''], File (''class A {'' @ [CHR 0x0A] @ ''}'')) #
              example_fs,
          updated_files_count = 1, errors_applying_changes = []\<rparr>"
    using single_block_written [OF h1 h2 h3 h4 h5 h6 h7 h8 h7 refl] by (simp only: e1)
  have t2: "upgrade_loop (posix_os ''/'') ''/tmp/proj''
     (?g # ''```'' # [''class A {'', ''}''] @ [''```'']) 0
     \<lparr>world = example_fs, updated_files_count = 0, errors_applying_changes = []\<rparr> =
     Inr \<lparr>world = example_fs, updated_files_count = 0,
          errors_applying_changes = [CouldNotWrite ''B.java'' FileExistsError]\<rparr>"
    using single_block_written [OF g1 h2 g3 h4 g5 g6 h7 h8 h7 refl] by (simp only: e2)
  from h1 h2 h3 h4 h5 h6 h7 h8 t1 g1 g3 g5 g6 t2 show ?thesis
    by (intro conjI)
qed



text \<open>
  C6, as stated, fails on a fence line with surrounding whitespace: the tests are
  \<open>lines[i].strip() == "```"\<close>, so a line that is not exactly the marker opens the block
  and another one closes it.
\<close>

theorem padded_fence_accepted:
  "'' ```'' \<noteq> fence \<and> ''```  '' \<noteq> fence \<and>
   is_file_header ''--- File: src/A.java ---'' \<and>
   parse_step (posix_os ''/'') ''/tmp/proj''
     [''--- File: src/A.java ---'', '' ```'', ''class B {}'', ''```  ''] 0 example_state =
     Inr (4, example_state
               \<lparr>world := ([''tmp'', ''proj'', ''src'', ''A.java''], File ''class B {}'') # example_fs,
                updated_files_count := 1\<rparr>)"
  by code_simp

text \<open>
  C6, amended. At a header whose path passes the check, the block proceeds exactly when
  there is a next line and it equals the three-backtick marker after stripping leading
  and trailing whitespace (a language tag still disqualifies it); otherwise the step
  returns at the line after the header with the state unchanged. When the block proceeds,
  the body is the lines after the opening fence, verbatim, up to the first line that
  strips to the marker or to the end of the input.
\<close>

theorem fence_after_strip:
  assumes "is_file_header (lines ! i)"
    and "path_is_unsafe os (world st) repo_path
           (path_join repo_path (header_path (lines ! i))) = Inr False"
    and "body = takeWhile (\<lambda>l. strip l \<noteq> fence) (drop (i + 2) lines)"
    and "j = i + 2 + length body"
  shows "parse_step os repo_path lines i st =
           (if i + 1 < length lines \<and> strip (lines ! (i + 1)) = fence then
              (if j < length lines
               then Inr (j + 1,
                      write_changes os (path_join repo_path (header_path (lines ! i))) body st)
               else Inr (j, st\<lparr>errors_applying_changes :=
                              errors_applying_changes st @
                                [Incomplete (basename (header_path (lines ! i)))]\<rparr>))
            else Inr (i + 1, st)) \<and>
         list_all (\<lambda>l. strip l \<noteq> fence) body \<and>
         body = take (length body) (drop (i + 2) lines) \<and>
         (j < length lines \<and> strip (lines ! j) = fence \<or> length lines \<le> j)"
proof (intro conjI)
  show "parse_step os repo_path lines i st =
           (if i + 1 < length lines \<and> strip (lines ! (i + 1)) = fence then
              (if j < length lines
               then Inr (j + 1,
                      write_changes os (path_join repo_path (header_path (lines ! i))) body st)
               else Inr (j, st\<lparr>errors_applying_changes :=
                              errors_applying_changes st @
                                [Incomplete (basename (header_path (lines ! i)))]\<rparr>))
            else Inr (i + 1, st))"
  proof (cases "i + 1 < length lines \<and> strip (lines ! (i + 1)) = fence")
    case True
    then have "parse_step os repo_path lines i st =
           (if j < length lines
            then Inr (j + 1, write_changes os (path_join repo_path (header_path (lines ! i))) body st)
            else Inr (j, st\<lparr>errors_applying_changes :=
                           errors_applying_changes st @
                             [Incomplete (basename (header_path (lines ! i)))]\<rparr>))"
      using parse_step_fence [OF assms(1,2) _ _ assms(3,4)] by blast
    with True show ?thesis
      by (simp only: simp_thms if_True)
  next
    case False
    then have "parse_step os repo_path lines i st = Inr (i + 1, st)"
      by (rule parse_step_no_fence [OF assms(1,2)])
    with False show ?thesis
      by (simp only: simp_thms if_False)
  qed
  show "list_all (\<lambda>l. strip l \<noteq> fence) body"
    unfolding assms(3) list_all_iff by (auto dest: set_takeWhileD)
  show "body = take (length body) (drop (i + 2) lines)"
    unfolding assms(3) by (rule takeWhile_eq_take)
  show "j < length lines \<and> strip (lines ! j) = fence \<or> length lines \<le> j"
  proof (cases "j < length lines")
    case True
    then show ?thesis
      using takeWhile_stops [of "i + 2" "\<lambda>l. strip l \<noteq> fence" lines] assms(3,4) by simp
  next
    case False
    then show ?thesis
      by simp
  qed
qed

theorem fence_after_strip_witness:
  "is_file_header ([''--- File: src/A.java ---'', '' ```'', ''class B {}'', ''```  ''] ! 0) \<and>
   path_is_unsafe (posix_os ''/'') (world example_state) ''/tmp/proj''
     (path_join ''/tmp/proj''
        (header_path ([''--- File: src/A.java ---'', '' ```'', ''class B {}'', ''```  ''] ! 0))) =
     Inr False \<and>
   [''class B {}''] =
     takeWhile (\<lambda>l. strip l \<noteq> fence)
       (drop (0 + 2) [''--- File: src/A.java ---'', '' ```'', ''class B {}'', ''```  '']) \<and>
   parse_step (posix_os ''/'') ''/tmp/proj''
     [''--- File: src/A.java ---'', '' ```'', ''class B {}'', ''```  ''] 0 example_state =
     Inr (4, write_changes (posix_os ''/'') ''/tmp/proj/src/A.java'' [''class B {}'']
               example_state) \<and>
   parse_step (posix_os ''/'') ''/tmp/proj''
     [''--- File: src/A.java ---'', ''```java'', ''class B {}'', ''```''] 0 example_state =
     Inr (1, example_state)"
proof -
  let ?lines = "[''--- File: src/A.java ---'', '' ```'', ''class B {}'', ''```  '']"
  let ?tagged = "[''--- File: src/A.java ---'', ''```java'', ''class B {}'', ''```'']"
  have h1: "is_file_header (?lines ! 0)"
    by code_simp
  have h2: "path_is_unsafe (posix_os ''/'') (world example_state) ''/tmp/proj''
              (path_join ''/tmp/proj'' (header_path (?lines ! 0))) = Inr False"
    by code_simp
  have h3: "[''class B {}''] = takeWhile (\<lambda>l. strip l \<noteq> fence) (drop (0 + 2) ?lines)"
    by code_simp
  have h4: "3 = 0 + 2 + length [''class B {}'']"
    by simp
  have g1: "is_file_header (?tagged ! 0)"
    by code_simp
  have g2: "path_is_unsafe (posix_os ''/'') (world example_state) ''/tmp/proj''
              (path_join ''/tmp/proj'' (header_path (?tagged ! 0))) = Inr False"
    by code_simp
  have g3: "[''class B {}''] = takeWhile (\<lambda>l. strip l \<noteq> fence) (drop (0 + 2) ?tagged)"
    by code_simp
  have c1: "0 + 1 < length ?lines \<and> strip (?lines ! (0 + 1)) = fence"
    by code_simp
  have c2: "\<not> (0 + 1 < length ?tagged \<and> strip (?tagged ! (0 + 1)) = fence)"
    by code_simp
  have p: "path_join ''/tmp/proj'' (header_path ''--- File: src/A.java ---'') =
             ''/tmp/proj/src/A.java''"
    by code_simp
  have "parse_step (posix_os ''/'') ''/tmp/proj'' ?lines 0 example_state =
          Inr (4, write_changes (posix_os ''/'') ''/tmp/proj/src/A.java'' [''class B {}'']
                    example_state)"
    using fence_after_strip [OF h1 h2 h3 h4] c1 by (simp add: p)
  moreover have "parse_step (posix_os ''/'') ''/tmp/proj'' ?tagged 0 example_state =
                   Inr (1, example_state)"
    using fence_after_strip [OF g1 g2 g3 h4] c2 by simp
  ultimately show ?thesis
    using h1 h2 h3 by (intro conjI)
qed

text \<open>
  C5. The pass does not return for every input: the path check is outside the \<open>try\<close>, and
  \<open>os.path.realpath\<close> raises \<open>ValueError\<close> on a path with a NUL character. A response
  whose header path contains one makes the exception leave \<open>upgrade_java\<close>.
\<close>

theorem nul_in_header_path_raises:
  "parse_and_apply (posix_os ''/'') ''/tmp/proj''
     (''--- File: src/A'' @ [CHR 0x00] @ ''.java ---'') example_fs = Inl ValueError"
  by code_simp

text \<open>
  C10, as stated, fails when the write fails: the absolute path \<open>/tmp/proj/src\<close> is
  within the root and passes the check, but it names a directory, so nothing is written,
  the error is recorded and the counter stays at 0.
\<close>

theorem absolute_directory_path_not_written:
  "is_file_header ''--- File: /tmp/proj/src ---'' \<and>
   startswith (header_path ''--- File: /tmp/proj/src ---'') ''/'' \<and>
   realpath (posix_os ''/'') example_fs ''/tmp/proj'' = Inr ''/tmp/proj'' \<and>
   realpath (posix_os ''/'') example_fs (header_path ''--- File: /tmp/proj/src ---'') =
     Inr ''/tmp/proj/src'' \<and>
   canonical_path ''/tmp/proj'' \<and> path_within ''/tmp/proj'' ''/tmp/proj/src'' \<and>
   upgrade_loop (posix_os ''/'') ''/tmp/proj''
     [''--- File: /tmp/proj/src ---'', ''```'', ''class A {}'', ''```''] 0 example_state =
     Inr \<lparr>world = example_fs, updated_files_count = 0,
          errors_applying_changes = [CouldNotWrite ''src'' IsADirectoryError]\<rparr>"
  by code_simp

text \<open>
  C10, amended. When the path captured from a header is itself absolute and its canonical
  form is within the root, joining it to the root gives it back unchanged, the check
  passes, and for a well-formed block the parent directories are created and the body is
  written at exactly that path: the loop goes on after the closing fence with the written
  world and the counter incremented when neither call raises, and with the error recorded
  and the counter unchanged when one does. So absolute paths within the root are accepted
  as well as relative ones; an echo of the label that the prompt gave for a file rewrites
  that file in place.
\<close>

theorem absolute_header_path_accepted:
  assumes "is_file_header header" and "startswith (header_path header) ''/''"
    and "realpath os (world st) repo_path = Inr real_root"
    and "realpath os (world st) (header_path header) = Inr target"
    and "canonical_path real_root" and "startswith target ''/''"
    and "path_within real_root target"
    and "strip open_fence = fence"
    and "list_all (\<lambda>l. strip l \<noteq> fence) body"
    and "strip close_fence = fence"
  shows "path_join repo_path (header_path header) = header_path header \<and>
         upgrade_loop os repo_path (pre @ header # open_fence # body @ close_fence # rest)
           (length pre) st =
         upgrade_loop os repo_path (pre @ header # open_fence # body @ close_fence # rest)
           (length pre + length body + 3)
           (case makedirs os (world st) (dirname (header_path header)) of
              (w1, Some e) \<Rightarrow>
                st\<lparr>world := w1,
                   errors_applying_changes :=
                     errors_applying_changes st @
                       [CouldNotWrite (basename (header_path header)) e]\<rparr>
            | (w1, None) \<Rightarrow>
                (case write_file os w1 (header_path header) (str_join [CHR 0x0A] body) of
                   (w2, Some e) \<Rightarrow>
                     st\<lparr>world := w2,
                        errors_applying_changes :=
                          errors_applying_changes st @
                            [CouldNotWrite (basename (header_path header)) e]\<rparr>
                 | (w2, None) \<Rightarrow>
                     st\<lparr>world := w2, updated_files_count := updated_files_count st + 1\<rparr>))"
proof -
  have j: "path_join repo_path (header_path header) = header_path header"
    using assms(2) by (simp add: path_join_def)
  have "path_is_unsafe os (world st) repo_path (header_path header) = Inr False"
    using path_is_unsafe_iff [OF assms(3,4,5,6)] assms(7) by simp
  then have "path_is_unsafe os (world st) repo_path
               (path_join repo_path (header_path header)) = Inr False"
    by (simp only: j)
  from upgrade_loop_block [OF assms(1) this assms(8,9,10)]
  have "upgrade_loop os repo_path (pre @ header # open_fence # body @ close_fence # rest)
           (length pre) st =
        upgrade_loop os repo_path (pre @ header # open_fence # body @ close_fence # rest)
           (length pre + length body + 3) (write_changes os (header_path header) body st)"
    by (simp only: j)
  then show ?thesis
    using j by (simp add: write_changes_def split: prod.splits option.splits)
qed

theorem absolute_header_path_accepted_witness:
  "is_file_header ''--- File: /tmp/proj/src/A.java ---'' \<and>
   startswith (header_path ''--- File: /tmp/proj/src/A.java ---'') ''/'' \<and>
   realpath (posix_os ''/'') (world example_state) ''/tmp/proj'' = Inr ''/tmp/proj'' \<and>
   realpath (posix_os ''/'') (world example_state)
     (header_path ''--- File: /tmp/proj/src/A.java ---'') = Inr ''/tmp/proj/src/A.java'' \<and>
   canonical_path ''/tmp/proj'' \<and> startswith ''/tmp/proj/src/A.java'' ''/'' \<and>
   path_within ''/tmp/proj'' ''/tmp/proj/src/A.java'' \<and>
   strip ''```'' = fence \<and>
   list_all (\<lambda>l. strip l \<noteq> fence) [''class A { int x; }''] \<and>
   path_join ''/tmp/proj'' (header_path ''--- File: /tmp/proj/src/A.java ---'') =
     ''/tmp/proj/src/A.java'' \<and>
   upgrade_loop (posix_os ''/'') ''/tmp/proj''
     ([] @ ''--- File: /tmp/proj/src/A.java ---'' # ''```'' # [''class A { int x; }''] @
        ''```'' # [])
     (length ([] :: string list)) example_state =
     Inr \<lparr>world = ([''tmp'', ''proj'', ''src'', ''A.java''], File ''class A { int x; }'') #
                    example_fs,
          updated_files_count = 1, errors_applying_changes = []\<rparr>"
proof -
  let ?h = "''--- File: /tmp/proj/src/A.java ---''"
  have h1: "is_file_header ?h"
    by code_simp
  have h2: "startswith (header_path ?h) ''/''"
    by code_simp
  have h3: "realpath (posix_os ''/'') (world example_state) ''/tmp/proj'' = Inr ''/tmp/proj''"
    by code_simp
  have h4: "realpath (posix_os ''/'') (world example_state) (header_path ?h) =
              Inr ''/tmp/proj/src/A.java''"
    by code_simp
  have h5: "canonical_path ''/tmp/proj''"
    by code_simp
  have h6: "startswith ''/tmp/proj/src/A.java'' ''/''"
    by code_simp
  have h7: "path_within ''/tmp/proj'' ''/tmp/proj/src/A.java''"
    by code_simp
  have h8: "strip ''```'' = fence"
    by code_simp
  have h9: "list_all (\<lambda>l. strip l \<noteq> fence) [''class A { int x; }'']"
    by code_simp
  have hp: "header_path ?h = ''/tmp/proj/src/A.java''"
    by code_simp
  have after: "upgrade_loop (posix_os ''/'') ''/tmp/proj''
     ([] @ ?h # ''```'' # [''class A { int x; }''] @ ''```'' # [])
     (length ([] :: string list) + length [''class A { int x; }''] + 3)
     (case makedirs (posix_os ''/'') (world example_state) (dirname (header_path ?h)) of
        (w1, Some e) \<Rightarrow>
          example_state\<lparr>world := w1,
             errors_applying_changes :=
               errors_applying_changes example_state @
                 [CouldNotWrite (basename (header_path ?h)) e]\<rparr>
      | (w1, None) \<Rightarrow>
          (case write_file (posix_os ''/'') w1 (header_path ?h)
                  (str_join [CHR 0x0A] [''class A { int x; }'']) of
             (w2, Some e) \<Rightarrow>
               example_state\<lparr>world := w2,
                  errors_applying_changes :=
                    errors_applying_changes example_state @
                      [CouldNotWrite (basename (header_path ?h)) e]\<rparr>
           | (w2, None) \<Rightarrow>
               example_state\<lparr>world := w2,
                 updated_files_count := updated_files_count example_state + 1\<rparr>)) =
     Inr \<lparr>world = ([''tmp'', ''proj'', ''src'', ''A.java''], File ''class A { int x; }'') #
                    example_fs,
          updated_files_count = 1, errors_applying_changes = []\<rparr>"
    by code_simp
  from absolute_header_path_accepted [OF h1 h2 h3 h4 h5 h6 h7 h8 h9 h8, of "[]" "[]"]
  have "path_join ''/tmp/proj'' (header_path ?h) = header_path ?h"
    and "upgrade_loop (posix_os ''/'') ''/tmp/proj''
     ([] @ ?h # ''```'' # [''class A { int x; }''] @ ''```'' # [])
     (length ([] :: string list)) example_state =
     Inr \<lparr>world = ([''tmp'', ''proj'', ''src'', ''A.java''], File ''class A { int x; }'') #
                    example_fs,
          updated_files_count = 1, errors_applying_changes = []\<rparr>"
    by (simp_all only: after)
  with h1 h2 h3 h4 h5 h6 h7 h8 h9 hp show ?thesis
    by (simp only: simp_thms)
qed

text \<open>
  C7. The suggestion filter does not return a list for every version string: \<open>float\<close>
  reads \<open>inf\<close>, \<open>int\<close> of an infinity raises \<open>OverflowError\<close>, and the \<open>except\<close> clause
  catches \<open>ValueError\<close> only.
\<close>

definition pom_with_source :: "string \<Rightarrow> xml" where
  "pom_with_source v =
     Element (mvn ''project'') None
       [Element (mvn ''properties'') None
          [Element (mvn ''maven.compiler.source'') (Some v) []]]"

theorem infinite_version_raises:
  "detect_current_version (Pom (pom_with_source ''inf'')) NoGradle = ''inf'' \<and>
   filter_suggestions ''inf'' = Inl OverflowError \<and>
   detect_java_version (Pom (pom_with_source ''inf'')) NoGradle = Inl OverflowError"
  by code_simp

text \<open>The versions of the examples: \<open>1.8\<close>, \<open>17\<close>, \<open>21\<close> and \<open>Unknown\<close>.\<close>

lemma suggestion_examples:
  "filter_suggestions ''1.8'' = Inr [''11'', ''17'', ''21'']"
  "filter_suggestions ''17'' = Inr [''21'']"
  "filter_suggestions ''21'' = Inr []"
  "filter_suggestions ''Unknown'' = Inr [''11'', ''17'', ''21'']"
  by code_simp+

text \<open>
  A Maven manifest with both properties, the texts of which are parameters.
\<close>

definition example_pom :: "string \<Rightarrow> string \<Rightarrow> xml" where
  "example_pom source_text version_text =
     Element (mvn ''project'') None
       [Element (mvn ''modelVersion'') (Some ''4.0.0'') [],
        Element (mvn ''properties'') None
          [Element (mvn ''java.version'') (Some version_text) [],
           Element (mvn ''maven.compiler.source'') (Some source_text) []]]"

text \<open>
  C8, as stated, fails in two ways. The text \<open>Unknown\<close> is also the value that stands
  for "not found", so with it in \<open>maven.compiler.source\<close> the scan of \<open>java.version\<close>
  runs and wins; and the text is returned stripped of surrounding whitespace, not as it
  stands.
\<close>

theorem source_sentinel_or_padded:
  "first_property (mvn ''maven.compiler.source'') (example_pom ''Unknown'' ''17'') =
     Some ''Unknown'' \<and>
   first_property (mvn ''java.version'') (example_pom ''Unknown'' ''17'') = Some ''17'' \<and>
   detect_java_version (Pom (example_pom ''Unknown'' ''17'')) NoGradle =
     Inr \<lparr>current_version = ''17'', suggested_versions = [''21'']\<rparr> \<and>
   first_property (mvn ''maven.compiler.source'') (example_pom '' 11 '' ''17'') =
     Some '' 11 '' \<and>
   detect_java_version (Pom (example_pom '' 11 '' ''17'')) NoGradle =
     Inr \<lparr>current_version = ''11'', suggested_versions = [''17'', ''21'']\<rparr>"
  by code_simp

text \<open>
  C8, amended. When some \<open>properties\<close> element gives a text for
  \<open>maven.compiler.source\<close> (the first such element decides), that text stripped is not
  \<open>Unknown\<close>, and the suggestion filter returns for it, \<open>detect_java_version\<close> returns
  that text stripped as the current version, with those suggestions, whatever
  \<open>java.version\<close> and \<open>build.gradle\<close> say.
\<close>

theorem compiler_source_wins:
  assumes "first_property (mvn ''maven.compiler.source'') pom_root = Some txt"
    and "strip txt \<noteq> ''Unknown''"
    and "filter_suggestions (strip txt) = Inr s"
  shows "detect_java_version (Pom pom_root) gradle =
           Inr \<lparr>current_version = strip txt, suggested_versions = s\<rparr>"
proof -
  have "pom_version pom_root ''Unknown'' = strip txt"
    using assms(1,2) by (simp add: pom_version_first)
  with assms(2) have "detect_current_version (Pom pom_root) gradle = strip txt"
    by (simp add: detect_current_version_def Let_def)
  with assms(3) show ?thesis
    by (simp add: detect_java_version_def Let_def)
qed

theorem compiler_source_wins_witness:
  "first_property (mvn ''maven.compiler.source'') (example_pom ''11'' ''17'') = Some ''11'' \<and>
   first_property (mvn ''java.version'') (example_pom ''11'' ''17'') = Some ''17'' \<and>
   strip ''11'' \<noteq> ''Unknown'' \<and>
   filter_suggestions (strip ''11'') = Inr [''17'', ''21''] \<and>
   detect_java_version (Pom (example_pom ''11'' ''17'')) (Gradle [''sourceCompatibility = 21'']) =
     Inr \<lparr>current_version = ''11'', suggested_versions = [''17'', ''21'']\<rparr>"
proof -
  have h1: "first_property (mvn ''maven.compiler.source'') (example_pom ''11'' ''17'') = Some ''11''"
    by code_simp
  have h2: "strip ''11'' \<noteq> ''Unknown''"
    by code_simp
  have h3: "filter_suggestions (strip ''11'') = Inr [''17'', ''21'']"
    by code_simp
  have h4: "first_property (mvn ''java.version'') (example_pom ''11'' ''17'') = Some ''17''"
    by code_simp
  have s: "strip ''11'' = ''11''"
    by code_simp
  from compiler_source_wins [OF h1 h2 h3, of "Gradle [''sourceCompatibility = 21'']"]
  have "detect_java_version (Pom (example_pom ''11'' ''17''))
          (Gradle [''sourceCompatibility = 21'']) =
        Inr \<lparr>current_version = ''11'', suggested_versions = [''17'', ''21'']\<rparr>"
    by (simp only: s)
  with h1 h4 h2 h3 show ?thesis
    by (intro conjI)
qed

text \<open>
  C9. The collector tests \<open>"build" not in root\<close> and \<open>"target" not in root\<close> on the
  directory path as a string, so a directory whose path merely contains one of the words
  is left out too: the file \<open>src/builder/Widget.java\<close> ends in \<open>.java\<close>, has no \<open>build\<close>
  or \<open>target\<close> component, and is not returned.
\<close>

theorem builder_directory_excluded:
  "find_java_files ''/tmp/proj'' example_tree = [''/tmp/proj/src/Main.java''] \<and>
   ''/tmp/proj/src/builder/Widget.java'' \<in>
     set (concat (map (\<lambda>(dirpath, dirs, files). map (path_join dirpath) files)
                   (os_walk ''/tmp/proj'' example_tree))) \<and>
   endswith ''/tmp/proj/src/builder/Widget.java'' ''.java'' \<and>
   ''build'' \<notin> set (split_on (CHR ''/'') ''/tmp/proj/src/builder/Widget.java'') \<and>
   ''target'' \<notin> set (split_on (CHR ''/'') ''/tmp/proj/src/builder/Widget.java'')"
  by code_simp

end
